theory Spec2Isabelle
  imports Main
begin

section \<open>Promises, timers and the event loop\<close>

text \<open>
  The helpers of \<^verbatim>\<open>src/lib/api/novels.ts\<close> (and the files concatenated with it) are
  asynchronous: their behaviour is a matter of which promise settles when. The model uses
  a virtual clock counted in whole milliseconds, and inside a millisecond it tells two
  moments apart: before and after the tasks of the timers that the code under study has
  due in that millisecond.

  A promise is described by the moment it settles, counted from the moment it is handed
  to the code under study, and by what it settles with: \<open>Inr v\<close> is fulfilment with
  \<open>v\<close>, \<open>Inl r\<close> is rejection with reason \<open>r\<close>.
  \<^item> \<open>Pending\<close> never settles.
  \<^item> \<open>SettlesAt t x\<close> settles in millisecond \<open>t\<close>, before the tasks of the timers of the
    code under study that are due in that millisecond: a promise that is settled
    already (\<open>t = 0\<close>), one settled by a timer that was armed earlier than those, one
    settled by an event that the event loop handles first.
  \<^item> \<open>SettlesAfter t x\<close> settles in millisecond \<open>t\<close> when those tasks have run: by the
    last of them, or by something later in that millisecond.
\<close>

datatype ('r, 'a) promise = Pending | SettlesAt nat "'r + 'a" | SettlesAfter nat "'r + 'a"

text \<open>
  What can reach the \<^verbatim>\<open>catch\<close> block of \<^verbatim>\<open>fetchWithRetry\<close>, or be thrown by it:
  \<^item> \<open>Undefined\<close>: the initial value of \<^verbatim>\<open>let lastError;\<close>;
  \<^item> \<open>ErrorObj m\<close>: the object \<^verbatim>\<open>new Error(m)\<close> made by \<^verbatim>\<open>withTimeout\<close>;
  \<^item> \<open>OpFailure e\<close>: the value \<open>e\<close> the caller's operation threw or rejected with,
    passed on unchanged.
\<close>

datatype 'e reason = Undefined | ErrorObj string | OpFailure 'e

text \<open>
  The event loop as far as the code can observe it: the clock; the number of times the
  caller's operation has been invoked; the deadlines of the timers that are armed and
  have not fired; a log of the calls and the backoff waits in the order they happened,
  where \<open>Wait d t\<close> is a wait requested with \<^verbatim>\<open>setTimeout(resolve, d)\<close> that took \<open>t\<close>
  milliseconds of the clock; the clock at each call of the operation, in order; and what
  the runtime makes of a timer delay that is out of range (see \<open>timer_delay\<close>).
\<close>

datatype event = Call | Wait int nat

record world =
  now :: nat
  calls :: nat
  timers :: "nat list"
  trace :: "event list"
  starts :: "nat list"
  out_of_range :: "int \<Rightarrow> nat"

text \<open>
  \<^verbatim>\<open>setTimeout(f, ms)\<close> arms a timer. The timer API keeps the delay as a 32-bit signed
  integer: a whole number from 1 to \<open>2\<^sup>3\<^sup>1 - 1\<close> is the delay in milliseconds. What becomes
  of any other number (zero, a negative one, one of \<open>2\<^sup>3\<^sup>1\<close> or more) differs between
  runtimes: a browser wraps it to 32 bits and takes a negative result as zero, Node
  takes one millisecond. The model leaves that to the runtime, as \<open>out_of_range\<close>.

  No code in the repository calls \<^verbatim>\<open>clearTimeout\<close>: a timer leaves \<open>timers\<close> only by
  firing.
\<close>

definition in_timer_range :: "int \<Rightarrow> bool" where
  "in_timer_range ms = (1 \<le> ms \<and> ms \<le> 2147483647)"

definition timer_delay :: "world \<Rightarrow> int \<Rightarrow> nat" where
  "timer_delay w ms = (if in_timer_range ms then nat ms else out_of_range w ms)"

definition setTimeout :: "int \<Rightarrow> world \<Rightarrow> world" where
  "setTimeout ms w = w\<lparr>timers := timers w @ [now w + timer_delay w ms]\<rparr>"

text \<open>
  The clock moves on by \<open>d\<close> milliseconds. \<open>advance_ahead\<close> stops before the timer tasks
  of the millisecond it reaches: the timers due earlier have fired, the timers due in
  that millisecond are still armed. \<open>advance\<close> stops when those tasks have run as well.
\<close>

definition advance_ahead :: "nat \<Rightarrow> world \<Rightarrow> world" where
  "advance_ahead d w =
     w\<lparr>now := now w + d, timers := filter (\<lambda>t. now w + d \<le> t) (timers w)\<rparr>"

definition advance :: "nat \<Rightarrow> world \<Rightarrow> world" where
  "advance d w = w\<lparr>now := now w + d, timers := filter (\<lambda>t. now w + d < t) (timers w)\<rparr>"

text \<open>
  \<^verbatim>\<open>await p\<close>, for a promise handed over at the current moment: the caller resumes when
  \<open>p\<close> settles, and never if it does not (\<open>None\<close>).
\<close>

fun await :: "('r, 'a) promise \<Rightarrow> world \<Rightarrow> (('r + 'a) \<times> world) option" where
  "await Pending w = None"
| "await (SettlesAt t x) w = Some (x, advance_ahead t w)"
| "await (SettlesAfter t x) w = Some (x, advance t w)"

text \<open>
  \<^verbatim>\<open>new Promise((resolve, reject) => setTimeout(() => settle(x), ms))\<close>: a timer is armed,
  and its task settles the promise. When the code awaits such a promise, the timer is
  the one armed last, so that its task is the last of the timer tasks due by then.
\<close>

definition timer_promise :: "int \<Rightarrow> 'r + 'a \<Rightarrow> world \<Rightarrow> ('r, 'a) promise \<times> world" where
  "timer_promise ms x w = (SettlesAfter (timer_delay w ms) x, setTimeout ms w)"

text \<open>
  \<^verbatim>\<open>Promise.race([p, q])\<close>, for a \<open>q\<close> that a timer task of the code settles, as in
  \<^verbatim>\<open>withTimeout\<close>: the first to settle decides. In one and the same millisecond,
  a promise that settles before the timer tasks is ahead of one that settles after
  them; of two that settle before them, the one listed first is reacted to first; and of
  two that settle after them, \<open>q\<close> is the earlier one, since it is a timer task that
  settles it.
\<close>

fun race :: "('r, 'a) promise \<Rightarrow> ('r, 'a) promise \<Rightarrow> ('r, 'a) promise" where
  "race Pending q = q"
| "race (SettlesAt t x) Pending = SettlesAt t x"
| "race (SettlesAt t x) (SettlesAt u y) = (if t \<le> u then SettlesAt t x else SettlesAt u y)"
| "race (SettlesAt t x) (SettlesAfter u y) =
     (if t \<le> u then SettlesAt t x else SettlesAfter u y)"
| "race (SettlesAfter t x) Pending = SettlesAfter t x"
| "race (SettlesAfter t x) (SettlesAt u y) =
     (if t < u then SettlesAfter t x else SettlesAt u y)"
| "race (SettlesAfter t x) (SettlesAfter u y) =
     (if t < u then SettlesAfter t x else SettlesAfter u y)"

section \<open>withTimeout\<close>

text \<open>
  \<^verbatim>\<open>
  export const SUPABASE_TIMEOUT = 10000; // 10 seconds

  export async function withTimeout<T>(
    promise: Promise<T>,
    timeoutMs: number = SUPABASE_TIMEOUT
  ): Promise<T> {
    const timeoutPromise = new Promise<never>((_, reject) => {
      setTimeout(() => reject(new Error('Request timed out')), timeoutMs);
    });
    return Promise.race([promise, timeoutPromise]);
  }
  \<close>
  An omitted argument is \<open>None\<close>. The function arms one timer and returns the race.
\<close>

definition SUPABASE_TIMEOUT :: int where
  "SUPABASE_TIMEOUT = 10000"

definition withTimeout ::
  "('e, 'a) promise \<Rightarrow> int option \<Rightarrow> world \<Rightarrow> ('e reason, 'a) promise \<times> world" where
  "withTimeout p timeoutMs w =
     (let ms = (case timeoutMs of None \<Rightarrow> SUPABASE_TIMEOUT | Some n \<Rightarrow> n)
      in case timer_promise ms (Inl (ErrorObj ''Request timed out'')) w of
           (timeoutPromise, w1) \<Rightarrow> (race (map_promise OpFailure id p) timeoutPromise, w1))"

section \<open>fetchWithRetry\<close>

text \<open>
  \<^verbatim>\<open>
  export async function fetchWithRetry<T>(
    fetchFn: () => Promise<T>,
    maxRetries: number = 3,
    delay: number = 1000
  ): Promise<T> {
    let lastError;
    for (let i = 0; i < maxRetries; i++) {
      try {
        return await withTimeout(fetchFn());
      } catch (error) {
        lastError = error;
        if (i < maxRetries - 1) {
          await new Promise(resolve => setTimeout(resolve, delay * (i + 1)));
        }
      }
    }
    throw lastError;
  }
  \<close>
  A call of \<^verbatim>\<open>fetchFn\<close> either throws before it returns or returns a promise. The
  operation is given by what its calls do, in order: \<open>fetchFn n\<close> is the behaviour of
  the call made after \<open>n\<close> earlier calls. Attempt counts and delays are whole numbers.
\<close>

datatype ('e, 'a) behaviour = Throws 'e | Returns "('e, 'a) promise"

type_synonym ('e, 'a) operation = "nat \<Rightarrow> ('e, 'a) behaviour"

definition invoke :: "('e, 'a) operation \<Rightarrow> world \<Rightarrow> ('e, 'a) behaviour \<times> world" where
  "invoke fetchFn w =
     (fetchFn (calls w),
      w\<lparr>calls := Suc (calls w), trace := trace w @ [Call], starts := starts w @ [now w]\<rparr>)"

text \<open>The body of the \<^verbatim>\<open>try\<close>: \<^verbatim>\<open>await withTimeout(fetchFn())\<close>.\<close>

definition attempt ::
  "('e, 'a) operation \<Rightarrow> world \<Rightarrow> (('e reason + 'a) \<times> world) option" where
  "attempt fetchFn w =
     (case invoke fetchFn w of
        (Throws e, w1) \<Rightarrow> Some (Inl (OpFailure e), w1)
      | (Returns p, w1) \<Rightarrow> (case withTimeout p None w1 of (pr, w2) \<Rightarrow> await pr w2))"

text \<open>\<^verbatim>\<open>await new Promise(resolve => setTimeout(resolve, d))\<close>.\<close>

definition backoff :: "int \<Rightarrow> world \<Rightarrow> world option" where
  "backoff d w =
     (case timer_promise d (Inr ()) w of
        (p, w0) \<Rightarrow>
          (case await (p :: (unit, unit) promise) w0 of
             None \<Rightarrow> None
           | Some (u, w1) \<Rightarrow> Some (w1\<lparr>trace := trace w1 @ [Wait d (now w1 - now w)]\<rparr>)))"

function fetchWithRetry_loop ::
  "('e, 'a) operation \<Rightarrow> int \<Rightarrow> int \<Rightarrow> int \<Rightarrow> 'e reason \<Rightarrow> world
     \<Rightarrow> (('e reason + 'a) \<times> world) option" where
  "fetchWithRetry_loop fetchFn maxRetries delay i lastError w =
     (if i < maxRetries then
        (case attempt fetchFn w of
           None \<Rightarrow> None
         | Some (Inr v, w1) \<Rightarrow> Some (Inr v, w1)
         | Some (Inl error, w1) \<Rightarrow>
             (if i < maxRetries - 1 then
                (case backoff (delay * (i + 1)) w1 of
                   None \<Rightarrow> None
                 | Some w2 \<Rightarrow> fetchWithRetry_loop fetchFn maxRetries delay (i + 1) error w2)
              else fetchWithRetry_loop fetchFn maxRetries delay (i + 1) error w1))
      else Some (Inl lastError, w))"
  by pat_completeness auto
termination
  by (relation "measure (\<lambda>(fetchFn, maxRetries, delay, i, lastError, w). nat (maxRetries - i))")
     auto

definition fetchWithRetry ::
  "('e, 'a) operation \<Rightarrow> int option \<Rightarrow> int option \<Rightarrow> world
     \<Rightarrow> (('e reason + 'a) \<times> world) option" where
  "fetchWithRetry fetchFn maxRetries delay w =
     fetchWithRetry_loop fetchFn
       (case maxRetries of None \<Rightarrow> 3 | Some n \<Rightarrow> n)
       (case delay of None \<Rightarrow> 1000 | Some d \<Rightarrow> d)
       0 Undefined w"

declare fetchWithRetry_loop.simps [simp del]

text \<open>
  \<^verbatim>\<open>await withTimeout(p, timeoutMs)\<close>, as the \<^verbatim>\<open>try\<close> block uses it and as any
  other caller of \<^verbatim>\<open>withTimeout\<close> would.
\<close>

definition await_withTimeout ::
  "('e, 'a) promise \<Rightarrow> int option \<Rightarrow> world \<Rightarrow> (('e reason + 'a) \<times> world) option" where
  "await_withTimeout p timeoutMs w =
     (case withTimeout p timeoutMs w of (pr, w1) \<Rightarrow> await pr w1)"

section \<open>Vocabulary of the properties\<close>

text \<open>
  An event loop on which nothing has happened yet (on a runtime that fires a timer with
  a delay out of range at once).
\<close>

definition idle :: world where
  "idle = \<lparr>now = 0, calls = 0, timers = [], trace = [], starts = [],
           out_of_range = (\<lambda>ms. 0)\<rparr>"

text \<open>
  Whether a promise has settled when the task of a timer runs that was armed, with a
  delay of \<open>d\<close> milliseconds, at the moment the promise was handed over.
\<close>

fun settles_by :: "nat \<Rightarrow> ('r, 'a) promise \<Rightarrow> bool" where
  "settles_by d Pending = False"
| "settles_by d (SettlesAt t x) = (t \<le> d)"
| "settles_by d (SettlesAfter t x) = (t < d)"

text \<open>
  What one attempt of \<^verbatim>\<open>fetchWithRetry\<close> comes to for a given behaviour of the call,
  and how long it takes. The attempt fails (\<open>Inl\<close>) when the call throws, when its
  promise rejects before the timer of ten seconds fires, and when its promise has not
  settled by then; it succeeds (\<open>Inr\<close>) when the promise is fulfilled before that timer
  fires. That \<open>attempt\<close> computes exactly this is lemma \<open>attempt_eq\<close>.
\<close>

fun outcome :: "('e, 'a) behaviour \<Rightarrow> 'e reason + 'a" where
  "outcome (Throws e) = Inl (OpFailure e)"
| "outcome (Returns Pending) = Inl (ErrorObj ''Request timed out'')"
| "outcome (Returns (SettlesAt t x)) =
     (if t \<le> 10000 then map_sum OpFailure id x else Inl (ErrorObj ''Request timed out''))"
| "outcome (Returns (SettlesAfter t x)) =
     (if t < 10000 then map_sum OpFailure id x else Inl (ErrorObj ''Request timed out''))"

fun duration :: "('e, 'a) behaviour \<Rightarrow> nat" where
  "duration (Throws e) = 0"
| "duration (Returns Pending) = 10000"
| "duration (Returns (SettlesAt t x)) = min t 10000"
| "duration (Returns (SettlesAfter t x)) = min t 10000"

text \<open>A call whose promise has not settled when the timer of ten seconds fires.\<close>

fun outlasts_timeout :: "('e, 'a) behaviour \<Rightarrow> bool" where
  "outlasts_timeout (Throws e) = False"
| "outlasts_timeout (Returns p) = (\<not> settles_by 10000 p)"

text \<open>
  The calls and waits of a run of \<open>k\<close> attempts whose first attempt is made with loop
  index \<open>i\<close>: the \<open>j\<close>-th attempt of the run, for \<open>j < k\<close>, is followed by a wait of
  \<open>delay \<times> (i + j)\<close>, and the last attempt is followed by nothing. For a whole run
  \<open>i = 0\<close>, so that the wait after attempt \<open>j\<close> is \<open>delay \<times> j\<close>.
\<close>

definition schedule_from :: "int \<Rightarrow> int \<Rightarrow> nat \<Rightarrow> event list" where
  "schedule_from delay i k =
     concat (map (\<lambda>j. [Call, Wait (delay * (i + int j)) (nat (delay * (i + int j)))]) [1..<k])
     @ [Call]"

text \<open>
  The clock at the start of each of the \<open>k\<close> attempts of a run that makes its first
  attempt at clock \<open>t\<close>, with loop index \<open>i\<close>, as call number \<open>c\<close> of the operation: an
  attempt begins, lasts as long as \<open>duration\<close> says, and the next one begins
  \<open>delay \<times> (i + 1)\<close> after its end. For a whole run \<open>i = 0\<close>, so that attempt \<open>j + 1\<close>
  begins \<open>delay \<times> j\<close> after the end of attempt \<open>j\<close>.
\<close>

fun start_times ::
  "('e, 'a) operation \<Rightarrow> int \<Rightarrow> int \<Rightarrow> nat \<Rightarrow> nat \<Rightarrow> nat \<Rightarrow> nat list" where
  "start_times f delay i c t 0 = []"
| "start_times f delay i c t (Suc k) =
     t # start_times f delay (i + 1) (Suc c) (t + duration (f c) + nat (delay * (i + 1))) k"

text \<open>
  Every wait that a run of at most \<open>n\<close> attempts with base delay \<open>d\<close> can ask for is a
  delay that the timer API takes as it is.
\<close>

definition waits_in_range :: "int \<Rightarrow> int \<Rightarrow> bool" where
  "waits_in_range n d = (n \<le> 1 \<or> (1 \<le> d \<and> d * (n - 1) \<le> 2147483647))"

section \<open>createNovel and uploadNovelCover\<close>

text \<open>
  A value that is thrown or that a promise rejects with, as far as the \<^verbatim>\<open>catch\<close>
  block of \<^verbatim>\<open>createNovel\<close> tells values apart: \<^verbatim>\<open>null\<close> and \<^verbatim>\<open>undefined\<close>, on which
  reading \<^verbatim>\<open>.message\<close> throws a TypeError; any other value, with its \<^verbatim>\<open>message\<close>
  property (\<open>None\<close> when the value has none).
\<close>

datatype thrown = Nullish | Thrown "string option"

text \<open>What an awaited call of a collaborator does.\<close>

datatype 'a settles = Hangs | Rejects thrown | Resolves 'a

record js_file =
  name :: string
  content :: string

record 'f novel_row =
  formData :: 'f
  novel_coverpage :: "string option"
  upload_by :: string
  views :: nat
  created_at :: string

text \<open>
  The collaborators: \<^verbatim>\<open>uuidv4()\<close>, the object store
  (\<^verbatim>\<open>supabase.storage.from('novel_covers')\<close>), the record store
  (\<^verbatim>\<open>supabase.from('Novels').insert([row]).select().single()\<close>) and the clock. A
  response of either store carries an \<^verbatim>\<open>error\<close> field, \<^verbatim>\<open>null\<close> (\<open>None\<close>) or an
  error object with its message.
\<close>

record 'f backend =
  uuidv4 :: string
  upload :: "string \<Rightarrow> js_file \<Rightarrow> string option settles"
  getPublicUrl :: "string \<Rightarrow> string"
  insert_single :: "'f novel_row \<Rightarrow> string option settles"
  toISOString :: string

text \<open>\<^verbatim>\<open>s.split(c)\<close> for a one-character separator: never an empty list.\<close>

fun js_split :: "char \<Rightarrow> string \<Rightarrow> string list" where
  "js_split c [] = [[]]"
| "js_split c (x # xs) =
     (if x = c then [] # js_split c xs
      else (case js_split c xs of [] \<Rightarrow> [[x]] | y # ys \<Rightarrow> (x # y) # ys))"

text \<open>
  \<^verbatim>\<open>
  export async function uploadNovelCover(file: File): Promise<string> {
    try {
      const fileExt = file.name.split('.').pop();
      const fileName = `${uuidv4()}.${fileExt}`;
      const { error: uploadError } = await supabase.storage
        .from('novel_covers')
        .upload(fileName, file, { cacheControl: '3600', upsert: false });
      if (uploadError) throw uploadError;
      const { data } = supabase.storage.from('novel_covers').getPublicUrl(fileName);
      return data.publicUrl;
    } catch (error) {
      console.error('Error uploading novel cover:', error);
      throw error;
    }
  }
  \<close>
\<close>

definition uploadNovelCover :: "'f backend \<Rightarrow> js_file \<Rightarrow> string settles" where
  "uploadNovelCover b f =
     (let fileExt = last (js_split CHR ''.'' (name f));
          fileName = uuidv4 b @ ''.'' @ fileExt
      in case upload b fileName f of
           Hangs \<Rightarrow> Hangs
         | Rejects x \<Rightarrow> Rejects x
         | Resolves (Some uploadError) \<Rightarrow> Rejects (Thrown (Some uploadError))
         | Resolves None \<Rightarrow> Resolves (getPublicUrl b fileName))"

text \<open>
  \<^verbatim>\<open>
  export async function createNovel(formData, coverImage: File | null, userId: string)
    : Promise<{ success: boolean; error?: string }> {
    try {
      let novel_coverpage = null;
      if (coverImage) {
        novel_coverpage = await uploadNovelCover(coverImage);
      }
      const { data, error } = await supabase.from('Novels')
        .insert([{ ...formData, novel_coverpage, upload_by: userId, views: 0,
                   created_at: new Date().toISOString() }])
        .select().single();
      if (error) {
        throw error;
      }
      toast.success('Novel created successfully!');
      return { success: true };
    } catch (error: any) {
      console.error('Error creating novel:', error);
      toast.error(error.message || 'Failed to create novel');
      return { success: false, error: error.message };
    }
  }
  \<close>
  The result is what the returned promise does, together with the toasts shown.
\<close>

datatype toast = ToastSuccess string | ToastError string

record create_result =
  success :: bool
  error :: "string option"

datatype create_outcome = NeverSettles | RejectsWithTypeError | ResolvesWith create_result

text \<open>
  The \<^verbatim>\<open>catch\<close> block. The argument of \<^verbatim>\<open>toast.error\<close> is evaluated before the call:
  on \<^verbatim>\<open>null\<close> or \<^verbatim>\<open>undefined\<close> it throws, out of the \<^verbatim>\<open>catch\<close> block, and nothing is
  shown. \<^verbatim>\<open>||\<close> takes the right-hand side for a missing and for an empty message.
\<close>

fun catch_block :: "thrown \<Rightarrow> create_outcome \<times> toast list" where
  "catch_block Nullish = (RejectsWithTypeError, [])"
| "catch_block (Thrown m) =
     (ResolvesWith \<lparr>success = False, error = m\<rparr>,
      [ToastError (case m of
                     None \<Rightarrow> ''Failed to create novel''
                   | Some s \<Rightarrow> if s = [] then ''Failed to create novel'' else s)])"

definition createNovel ::
  "'f backend \<Rightarrow> 'f \<Rightarrow> js_file option \<Rightarrow> string \<Rightarrow> create_outcome \<times> toast list" where
  "createNovel b fd coverImage userId =
     (case (case coverImage of
              None \<Rightarrow> Resolves None
            | Some f \<Rightarrow> (case uploadNovelCover b f of
                          Hangs \<Rightarrow> Hangs
                        | Rejects x \<Rightarrow> Rejects x
                        | Resolves url \<Rightarrow> Resolves (Some url))) of
        Hangs \<Rightarrow> (NeverSettles, [])
      | Rejects x \<Rightarrow> catch_block x
      | Resolves cover \<Rightarrow>
          (case insert_single b \<lparr>formData = fd, novel_coverpage = cover, upload_by = userId,
                                 views = 0, created_at = toISOString b\<rparr> of
             Hangs \<Rightarrow> (NeverSettles, [])
           | Rejects x \<Rightarrow> catch_block x
           | Resolves (Some insertError) \<Rightarrow> catch_block (Thrown (Some insertError))
           | Resolves None \<Rightarrow>
               (ResolvesWith \<lparr>success = True, error = None\<rparr>,
                [ToastSuccess ''Novel created successfully!''])))"

text \<open>
  A collaborator call that \<^verbatim>\<open>createNovel\<close> can absorb: it settles, and not with a
  rejection by \<^verbatim>\<open>null\<close> or \<^verbatim>\<open>undefined\<close>.
\<close>

fun absorbable :: "'a settles \<Rightarrow> bool" where
  "absorbable Hangs = False"
| "absorbable (Rejects Nullish) = False"
| "absorbable (Rejects (Thrown m)) = True"
| "absorbable (Resolves x) = True"

text \<open>
  A call of a store that fails, and the \<^verbatim>\<open>message\<close> property of what is then thrown:
  the call rejects with a value that is not \<^verbatim>\<open>null\<close> or \<^verbatim>\<open>undefined\<close>, or it answers
  with an error object.
\<close>

fun fails_with :: "string option settles \<Rightarrow> string option \<Rightarrow> bool" where
  "fails_with (Rejects (Thrown m)) e = (e = m)"
| "fails_with (Resolves (Some m)) e = (e = Some m)"
| "fails_with s e = False"

text \<open>
  A backend for concrete runs: the object store answers every upload with \<open>u\<close> and the
  record store answers every insert with \<open>i\<close>.
\<close>

definition stub_backend ::
  "string option settles \<Rightarrow> string option settles \<Rightarrow> unit backend" where
  "stub_backend u i =
     \<lparr>uuidv4 = ''0000'',
      upload = (\<lambda>fileName f. u),
      getPublicUrl = (\<lambda>fileName. ''https://covers/'' @ fileName),
      insert_single = (\<lambda>row. i),
      toISOString = ''2024-01-01T00:00:00.000Z''\<rparr>"

section \<open>Properties of one attempt and of one wait\<close>

lemma timer_delay_in_range: "in_timer_range ms \<Longrightarrow> timer_delay w ms = nat ms"
  by (simp add: timer_delay_def)

lemma timer_delay_default: "timer_delay w SUPABASE_TIMEOUT = 10000"
  by (simp add: timer_delay_def in_timer_range_def SUPABASE_TIMEOUT_def)

lemma await_withTimeout_eq:
  "await_withTimeout p timeoutMs w =
     (let ms = (case timeoutMs of None \<Rightarrow> SUPABASE_TIMEOUT | Some n \<Rightarrow> n);
          T = timer_delay w ms
      in Some (if settles_by T p
               then (case p of
                       SettlesAt t x \<Rightarrow> (map_sum OpFailure id x, advance_ahead t (setTimeout ms w))
                     | SettlesAfter t x \<Rightarrow> (map_sum OpFailure id x, advance t (setTimeout ms w)))
               else (Inl (ErrorObj ''Request timed out''), advance T (setTimeout ms w))))"
  by (cases p)
     (auto simp: await_withTimeout_def withTimeout_def timer_promise_def Let_def)

lemma attempt_Returns:
  "fetchFn (calls w) = Returns p \<Longrightarrow>
     attempt fetchFn w = await_withTimeout p None (snd (invoke fetchFn w))"
  by (simp add: attempt_def invoke_def await_withTimeout_def)

lemma attempt_eq:
  "\<exists>w'. attempt fetchFn w = Some (outcome (fetchFn (calls w)), w')
        \<and> calls w' = Suc (calls w)
        \<and> trace w' = trace w @ [Call]
        \<and> starts w' = starts w @ [now w]
        \<and> now w' = now w + duration (fetchFn (calls w))
        \<and> out_of_range w' = out_of_range w"
proof (cases "fetchFn (calls w)")
  case (Throws e)
  then show ?thesis by (simp add: attempt_def invoke_def)
next
  case (Returns p)
  have d: "timer_delay (snd (invoke fetchFn w)) SUPABASE_TIMEOUT = 10000"
    by (rule timer_delay_default)
  have a: "attempt fetchFn w = await_withTimeout p None (snd (invoke fetchFn w))"
    using Returns by (rule attempt_Returns [of fetchFn w p])
  show ?thesis
    unfolding a await_withTimeout_eq
    using Returns d
    by (cases p)
       (auto simp: Let_def invoke_def advance_def advance_ahead_def setTimeout_def min_def)
qed

lemma attempt_facts:
  "attempt fetchFn w = Some (r, w') \<Longrightarrow>
     r = outcome (fetchFn (calls w)) \<and> calls w' = Suc (calls w)
     \<and> trace w' = trace w @ [Call] \<and> starts w' = starts w @ [now w]
     \<and> now w' = now w + duration (fetchFn (calls w))
     \<and> out_of_range w' = out_of_range w"
  using attempt_eq [of fetchFn w] by auto

lemma attempt_total: "\<exists>w'. attempt fetchFn w = Some (outcome (fetchFn (calls w)), w')"
  using attempt_eq [of fetchFn w] by blast

lemma backoff_eq:
  "\<exists>w'. backoff d w = Some w' \<and> calls w' = calls w \<and> starts w' = starts w
        \<and> out_of_range w' = out_of_range w
        \<and> now w' = now w + timer_delay w d
        \<and> trace w' = trace w @ [Wait d (timer_delay w d)]"
  by (simp add: backoff_def timer_promise_def advance_def setTimeout_def timer_delay_def)

section \<open>Properties of the retry loop\<close>

lemma schedule_from_one: "schedule_from delay i (Suc 0) = [Call]"
  by (simp add: schedule_from_def)

lemma loop_exit:
  "\<not> i < maxRetries \<Longrightarrow>
     fetchWithRetry_loop f maxRetries delay i lastError w = Some (Inl lastError, w)"
  by (subst fetchWithRetry_loop.simps) simp

lemma loop_success:
  "i < maxRetries \<Longrightarrow> attempt f w = Some (Inr v, w1) \<Longrightarrow>
     fetchWithRetry_loop f maxRetries delay i lastError w = Some (Inr v, w1)"
  by (subst fetchWithRetry_loop.simps) simp

lemma loop_retry:
  "i < maxRetries - 1 \<Longrightarrow> attempt f w = Some (Inl e, w1) \<Longrightarrow>
   backoff (delay * (i + 1)) w1 = Some w2 \<Longrightarrow>
     fetchWithRetry_loop f maxRetries delay i lastError w =
     fetchWithRetry_loop f maxRetries delay (i + 1) e w2"
  by (subst fetchWithRetry_loop.simps) simp

lemma loop_last:
  "i < maxRetries \<Longrightarrow> \<not> i < maxRetries - 1 \<Longrightarrow> attempt f w = Some (Inl e, w1) \<Longrightarrow>
     fetchWithRetry_loop f maxRetries delay i lastError w = Some (Inl e, w1)"
  by (subst fetchWithRetry_loop.simps) (simp add: loop_exit)

lemma upt_1_Suc: "0 < k \<Longrightarrow> [1..<Suc k] = 1 # map Suc [1..<k]"
  by (metis One_nat_def map_Suc_upt upt_conv_Cons less_Suc_eq_0_disj)

lemma schedule_from_Suc:
  assumes "0 < k"
  shows "schedule_from delay i (Suc k) =
           Call # Wait (delay * (i + 1)) (nat (delay * (i + 1))) # schedule_from delay (i + 1) k"
proof -
  show ?thesis
    unfolding schedule_from_def upt_1_Suc [OF assms]
    by (simp add: o_def add.assoc del: upt_Suc)
qed

text \<open>
  Every run of the loop that starts with attempts left: it settles; it makes \<open>k\<close>
  attempts, at least one and at most as many as are left; all attempts but the last
  failed; its result is the outcome of the last attempt; and if that is a failure, no
  attempt was left. When the waits it can ask for are delays that the timer API takes
  as they are, its log and its clock are those of \<open>schedule_from\<close> and \<open>start_times\<close>, and
  it ends when its last attempt ends.
\<close>

lemma loop_run:
  "n = nat (maxRetries - i) \<Longrightarrow> 0 < n \<Longrightarrow>
     \<exists>r w' k. fetchWithRetry_loop f maxRetries delay i lastError w = Some (r, w')
       \<and> 1 \<le> k \<and> k \<le> n
       \<and> calls w' = calls w + k
       \<and> (\<forall>j<k - 1. isl (outcome (f (calls w + j))))
       \<and> r = outcome (f (calls w + k - 1))
       \<and> (isl r \<longrightarrow> k = n)
       \<and> ((\<forall>j. i \<le> j \<and> j < maxRetries - 1 \<longrightarrow> in_timer_range (delay * (j + 1))) \<longrightarrow>
            trace w' = trace w @ schedule_from delay i k
            \<and> starts w' = starts w @ start_times f delay i (calls w) (now w) k
            \<and> now w' = last (starts w') + duration (f (calls w' - 1)))"
proof (induction n arbitrary: i lastError w)
  case 0
  then show ?case by blast
next
  case (Suc n)
  let ?R = "\<lambda>i. \<forall>j. i \<le> j \<and> j < maxRetries - 1 \<longrightarrow> in_timer_range (delay * (j + 1))"
  have m: "maxRetries - i = int (Suc n)" using Suc.prems(1) by linarith
  then have lt: "i < maxRetries" by linarith
  obtain w1 where a: "attempt f w = Some (outcome (f (calls w)), w1)"
    using attempt_total by blast
  have c1: "calls w1 = Suc (calls w)" and t1: "trace w1 = trace w @ [Call]"
    and s1: "starts w1 = starts w @ [now w]"
    and n1: "now w1 = now w + duration (f (calls w))"
    and o1: "out_of_range w1 = out_of_range w"
    using attempt_facts [OF a] by blast+
  have one: "trace w1 = trace w @ schedule_from delay i 1
             \<and> starts w1 = starts w @ start_times f delay i (calls w) (now w) 1
             \<and> now w1 = last (starts w1) + duration (f (calls w1 - 1))"
    using c1 t1 s1 n1 by (simp add: schedule_from_one)
  show ?case
  proof (cases "outcome (f (calls w))")
    case (Inr v)
    have "fetchWithRetry_loop f maxRetries delay i lastError w = Some (Inr v, w1)"
      using lt a Inr by (intro loop_success) simp_all
    then show ?thesis
      using c1 one Inr by (intro exI [of _ "Inr v"] exI [of _ w1] exI [of _ 1]) simp
  next
    case (Inl e)
    show ?thesis
    proof (cases "i < maxRetries - 1")
      case False
      have "fetchWithRetry_loop f maxRetries delay i lastError w = Some (Inl e, w1)"
        using lt False a Inl by (intro loop_last) simp_all
      moreover from False m have "n = 0" by linarith
      ultimately show ?thesis
        using c1 one Inl by (intro exI [of _ "Inl e"] exI [of _ w1] exI [of _ 1]) simp
    next
      case True
      let ?d = "delay * (i + 1)"
      obtain w2 where b: "backoff ?d w1 = Some w2"
        and c2: "calls w2 = calls w1"
        and s2: "starts w2 = starts w1"
        and n2: "now w2 = now w1 + timer_delay w1 ?d"
        and t2: "trace w2 = trace w1 @ [Wait ?d (timer_delay w1 ?d)]"
        using backoff_eq by blast
      have step: "fetchWithRetry_loop f maxRetries delay i lastError w =
                    fetchWithRetry_loop f maxRetries delay (i + 1) e w2"
        using a Inl True b by (intro loop_retry) simp_all
      have n: "n = nat (maxRetries - (i + 1))" "0 < n" using True m by linarith+
      from Suc.IH [OF n, of e w2]
      obtain r w' k where
        run: "fetchWithRetry_loop f maxRetries delay (i + 1) e w2 = Some (r, w')"
        and k: "1 \<le> k" "k \<le> n"
        and cw: "calls w' = calls w2 + k"
        and fl: "\<forall>j<k - 1. isl (outcome (f (calls w2 + j)))"
        and r: "r = outcome (f (calls w2 + k - 1))"
        and last: "isl r \<longrightarrow> k = n"
        and tm: "?R (i + 1) \<longrightarrow>
                   trace w' = trace w2 @ schedule_from delay (i + 1) k
                   \<and> starts w' = starts w2 @ start_times f delay (i + 1) (calls w2) (now w2) k
                   \<and> now w' = last (starts w') + duration (f (calls w' - 1))"
        by blast
      have fl': "\<forall>j<Suc k - 1. isl (outcome (f (calls w + j)))"
      proof (intro allI impI)
        fix j assume j: "j < Suc k - 1"
        show "isl (outcome (f (calls w + j)))"
        proof (cases j)
          case 0
          then show ?thesis using Inl by simp
        next
          case (Suc j')
          then have "j' < k - 1" using j by linarith
          then have "isl (outcome (f (calls w2 + j')))" using fl by blast
          moreover have "calls w2 + j' = calls w + j" using Suc c1 c2 by linarith
          ultimately show ?thesis by simp
        qed
      qed
      have k0: "0 < k" using k by linarith
      have tm': "trace w' = trace w @ schedule_from delay i (Suc k)
                 \<and> starts w' = starts w @ start_times f delay i (calls w) (now w) (Suc k)
                 \<and> now w' = last (starts w') + duration (f (calls w' - 1))"
        if R: "?R i"
      proof -
        have "in_timer_range ?d" using R True by simp
        then have td: "timer_delay w1 ?d = nat ?d" by (rule timer_delay_in_range)
        have "?R (i + 1)" using R by simp
        then have *: "trace w' = trace w2 @ schedule_from delay (i + 1) k"
          "starts w' = starts w2 @ start_times f delay (i + 1) (calls w2) (now w2) k"
          "now w' = last (starts w') + duration (f (calls w' - 1))"
          using tm by blast+
        have "trace w' = trace w @ schedule_from delay i (Suc k)"
          unfolding *(1) t2 t1 td schedule_from_Suc [OF k0] by simp
        moreover have "starts w' = starts w @ start_times f delay i (calls w) (now w) (Suc k)"
          unfolding *(2) s2 s1 c2 c1 n2 n1 td by simp
        ultimately show ?thesis using *(3) by blast
      qed
      have "calls w2 + k - 1 = calls w + Suc k - 1" using c1 c2 k by linarith
      then have r': "r = outcome (f (calls w + Suc k - 1))"
        using r by simp
      have cw': "calls w' = calls w + Suc k" using cw c1 c2 by linarith
      have k': "1 \<le> Suc k" "Suc k \<le> Suc n" using k by linarith+
      have last': "isl r \<longrightarrow> Suc k = Suc n" using last by blast
      have run': "fetchWithRetry_loop f maxRetries delay i lastError w = Some (r, w')"
        using step run by (rule trans)
      show ?thesis
        using run' k' cw' fl' r' last' tm' by blast
    qed
  qed
qed

lemma run_all_fail:
  assumes n: "n = nat (maxRetries - i)" "0 < n"
    and fl: "\<forall>j<n. isl (outcome (f (calls w + j)))"
  shows "\<exists>w'. fetchWithRetry_loop f maxRetries delay i lastError w
                 = Some (outcome (f (calls w + n - 1)), w')
              \<and> calls w' = calls w + n
              \<and> ((\<forall>j. i \<le> j \<and> j < maxRetries - 1 \<longrightarrow> in_timer_range (delay * (j + 1))) \<longrightarrow>
                   trace w' = trace w @ schedule_from delay i n
                   \<and> starts w' = starts w @ start_times f delay i (calls w) (now w) n
                   \<and> now w' = last (starts w') + duration (f (calls w' - 1)))"
proof -
  from loop_run [OF n, of f delay lastError w]
  obtain r w' k where
    run: "fetchWithRetry_loop f maxRetries delay i lastError w = Some (r, w')"
    and k: "1 \<le> k" "k \<le> n"
    and cw: "calls w' = calls w + k"
    and r: "r = outcome (f (calls w + k - 1))"
    and last: "isl r \<longrightarrow> k = n"
    and tm: "(\<forall>j. i \<le> j \<and> j < maxRetries - 1 \<longrightarrow> in_timer_range (delay * (j + 1))) \<longrightarrow>
               trace w' = trace w @ schedule_from delay i k
               \<and> starts w' = starts w @ start_times f delay i (calls w) (now w) k
               \<and> now w' = last (starts w') + duration (f (calls w' - 1))"
    by blast
  have "k - 1 < n" using k by linarith
  then have "isl (outcome (f (calls w + (k - 1))))" using fl by blast
  moreover have "calls w + (k - 1) = calls w + k - 1" using k by linarith
  ultimately have "isl r" using r by simp
  then have "k = n" using last by blast
  then show ?thesis using run cw tm r by blast
qed


lemma waits_in_range_all:
  assumes "waits_in_range n d"
  shows "\<forall>j. 0 \<le> j \<and> j < n - 1 \<longrightarrow> in_timer_range (d * (j + 1))"
proof (intro allI impI)
  fix j :: int
  assume j: "0 \<le> j \<and> j < n - 1"
  then have "\<not> n \<le> 1" by linarith
  then have d: "1 \<le> d" and b: "d * (n - 1) \<le> 2147483647"
    using assms by (simp_all add: waits_in_range_def)
  have "d * 1 \<le> d * (j + 1)" using d j by (intro mult_left_mono) linarith+
  moreover have "d * (j + 1) \<le> d * (n - 1)" using d j by (intro mult_left_mono) linarith+
  ultimately show "in_timer_range (d * (j + 1))"
    using d b unfolding in_timer_range_def by linarith
qed

section \<open>The claims about fetchWithRetry\<close>







text \<open>
  C6. With \<open>maxRetries = 1\<close>, \<^verbatim>\<open>fetchWithRetry\<close> is one attempt and nothing else: the
  operation is invoked once, the log gains that call and no wait, the clock advances by
  the duration of the attempt only, and the result is the outcome of the attempt.
\<close>

theorem fetchWithRetry_single_attempt:
  "\<exists>w'. fetchWithRetry fetchFn (Some 1) delay w = Some (outcome (fetchFn (calls w)), w')
        \<and> attempt fetchFn w = Some (outcome (fetchFn (calls w)), w')
        \<and> calls w' = Suc (calls w)
        \<and> trace w' = trace w @ [Call]
        \<and> now w' = now w + duration (fetchFn (calls w))"
proof -
  obtain w' where a: "attempt fetchFn w = Some (outcome (fetchFn (calls w)), w')"
    using attempt_total by blast
  have c: "calls w' = Suc (calls w)" "trace w' = trace w @ [Call]"
    "now w' = now w + duration (fetchFn (calls w))"
    using attempt_facts [OF a] by blast+
  have "fetchWithRetry_loop fetchFn 1 d 0 Undefined w = Some (outcome (fetchFn (calls w)), w')" for d
  proof (cases "outcome (fetchFn (calls w))")
    case (Inl e)
    have "fetchWithRetry_loop fetchFn 1 d 0 Undefined w = Some (Inl e, w')"
      using a Inl by (intro loop_last) simp_all
    then show ?thesis using Inl by simp
  next
    case (Inr v)
    have "fetchWithRetry_loop fetchFn 1 d 0 Undefined w = Some (Inr v, w')"
      using a Inr by (intro loop_success) simp_all
    then show ?thesis using Inr by simp
  qed
  then have "fetchWithRetry fetchFn (Some 1) delay w = Some (outcome (fetchFn (calls w)), w')"
    by (simp add: fetchWithRetry_def)
  then show ?thesis using a c by blast
qed

text \<open>
  C10. With \<open>maxRetries \<le> 0\<close>, \<^verbatim>\<open>fetchWithRetry\<close> rejects with \<^verbatim>\<open>undefined\<close> and
  leaves the event loop as it found it: the operation is not invoked and no timer is
  armed.
\<close>

theorem fetchWithRetry_no_attempts:
  "maxRetries \<le> 0 \<Longrightarrow>
     fetchWithRetry fetchFn (Some maxRetries) delay w = Some (Inl Undefined, w)"
  by (simp add: fetchWithRetry_def loop_exit)

text \<open>
  C10 at a concrete input: \<open>maxRetries = -2\<close>, for an operation that would succeed.
\<close>

theorem fetchWithRetry_no_attempts_witness:
  "(- 2 :: int) \<le> 0
   \<and> fetchWithRetry (\<lambda>n. Returns (SettlesAt 5 (Inr True)) :: (nat, bool) behaviour)
        (Some (- 2)) None idle = Some (Inl Undefined, idle)"
  using fetchWithRetry_no_attempts
          [of "- 2" "\<lambda>n. Returns (SettlesAt 5 (Inr True)) :: (nat, bool) behaviour" None idle]
  by simp

section \<open>The claims about withTimeout\<close>

lemma outlasts_timeout_outcome:
  "outlasts_timeout b \<Longrightarrow>
     outcome b = Inl (ErrorObj ''Request timed out'') \<and> duration b = 10000"
  by (cases b rule: outcome.cases) auto

lemma await_withTimeout_outcome:
  "map_option fst (await_withTimeout p None w) = Some (outcome (Returns p))"
  by (cases p)
     (simp_all add: await_withTimeout_eq timer_delay_default)

lemma single_attempt: "fetchWithRetry fetchFn (Some 1) delay w = attempt fetchFn w"
proof -
  obtain w' where a: "attempt fetchFn w = Some (outcome (fetchFn (calls w)), w')"
    using attempt_total by blast
  have "fetchWithRetry_loop fetchFn 1 d 0 Undefined w = Some (outcome (fetchFn (calls w)), w')" for d
  proof (cases "outcome (fetchFn (calls w))")
    case (Inl e)
    have "fetchWithRetry_loop fetchFn 1 d 0 Undefined w = Some (Inl e, w')"
      using a Inl by (intro loop_last) simp_all
    then show ?thesis using Inl by simp
  next
    case (Inr v)
    have "fetchWithRetry_loop fetchFn 1 d 0 Undefined w = Some (Inr v, w')"
      using a Inr by (intro loop_success) simp_all
    then show ?thesis using Inr by simp
  qed
  then show ?thesis using a by (simp add: fetchWithRetry_def)
qed

text \<open>
  C3. Let the timeout, given or default, be a whole number of milliseconds from 1 to
  \<open>2\<^sup>3\<^sup>1 - 1\<close>. For every promise that has not settled when the timer fires (it never
  settles, or it settles later, with a value or with a failure), \<^verbatim>\<open>withTimeout\<close>
  rejects with the error \<^verbatim>\<open>Request timed out\<close> at exactly the configured duration: a
  value the promise would be fulfilled with is not returned.
\<close>

theorem withTimeout_timer_first:
  assumes ms: "ms = (case timeoutMs of None \<Rightarrow> SUPABASE_TIMEOUT | Some n \<Rightarrow> n)"
    and rg: "in_timer_range ms"
    and late: "\<not> settles_by (nat ms) p"
  shows "\<exists>w'. await_withTimeout p timeoutMs w
                 = Some (Inl (ErrorObj ''Request timed out''), w')
              \<and> now w' = now w + nat ms"
  using late
  by (simp add: await_withTimeout_eq ms [symmetric] timer_delay_in_range [OF rg]
                advance_def setTimeout_def Let_def)

text \<open>
  C3 at a concrete input: a promise fulfilled after 9 ms, under a timeout of 5 ms.
\<close>

theorem withTimeout_timer_first_witness:
  "in_timer_range 5
   \<and> \<not> settles_by (nat 5) (SettlesAt 9 (Inr True) :: (nat, bool) promise)
   \<and> (\<exists>w'. await_withTimeout (SettlesAt 9 (Inr True) :: (nat, bool) promise) (Some 5) idle
               = Some (Inl (ErrorObj ''Request timed out''), w')
            \<and> now w' = 5)"
proof -
  have rg: "in_timer_range 5" by (simp add: in_timer_range_def)
  from withTimeout_timer_first
         [of 5 "Some 5" "SettlesAt 9 (Inr True) :: (nat, bool) promise" idle, OF _ rg] rg
  show ?thesis by (simp add: idle_def)
qed

text \<open>
  C4. Let the timeout, given or default, be at most \<open>2\<^sup>3\<^sup>1 - 1\<close> milliseconds. For every
  promise that settles strictly before the configured duration has elapsed,
  \<^verbatim>\<open>withTimeout\<close> settles at that moment with the same outcome: the value unchanged, or
  the promise's own rejection reason, which is not the timeout error.
\<close>

theorem withTimeout_operation_first:
  assumes ms: "ms = (case timeoutMs of None \<Rightarrow> SUPABASE_TIMEOUT | Some n \<Rightarrow> n)"
    and lt: "int t < ms"
    and hi: "ms \<le> 2147483647"
    and p: "p = SettlesAt t x \<or> p = SettlesAfter t x"
  shows "\<exists>w'. await_withTimeout p timeoutMs w
                 = Some (case x of Inl e \<Rightarrow> Inl (OpFailure e) | Inr v \<Rightarrow> Inr v, w')
              \<and> now w' = now w + t"
proof -
  have rg: "in_timer_range ms" using lt hi by (simp add: in_timer_range_def)
  have t: "t < nat ms" using lt by linarith
  have m: "map_sum OpFailure id x = (case x of Inl e \<Rightarrow> Inl (OpFailure e) | Inr v \<Rightarrow> Inr v)"
    by (cases x) simp_all
  from p show ?thesis
  proof
    assume "p = SettlesAt t x"
    then show ?thesis
      using t
      by (simp add: await_withTimeout_eq ms [symmetric] timer_delay_in_range [OF rg] m
                    advance_ahead_def setTimeout_def)
  next
    assume "p = SettlesAfter t x"
    then show ?thesis
      using t
      by (simp add: await_withTimeout_eq ms [symmetric] timer_delay_in_range [OF rg] m
                    advance_def setTimeout_def)
  qed
qed

text \<open>
  C4 at concrete inputs: a promise that is fulfilled, and one that rejects, after 5 ms
  under a timeout of ten seconds (the default, and given).
\<close>

theorem withTimeout_operation_first_witness:
  "int 5 < 10000 \<and> (10000::int) \<le> 2147483647
   \<and> (\<exists>w'. await_withTimeout (SettlesAt 5 (Inr True) :: (nat, bool) promise) None idle
               = Some (Inr True, w') \<and> now w' = 5)
   \<and> (\<exists>w'. await_withTimeout (SettlesAfter 5 (Inl 7) :: (nat, bool) promise) (Some 10000) idle
               = Some (Inl (OpFailure 7), w') \<and> now w' = 5)"
  using withTimeout_operation_first
          [of 10000 None 5 "SettlesAt 5 (Inr True) :: (nat, bool) promise" "Inr True" idle]
        withTimeout_operation_first
          [of 10000 "Some 10000" 5 "SettlesAfter 5 (Inl 7) :: (nat, bool) promise" "Inl 7" idle]
  by (simp add: idle_def SUPABASE_TIMEOUT_def)

text \<open>
  C7. The default timeout is 10000 ms and the defaults of \<^verbatim>\<open>fetchWithRetry\<close> are three
  attempts and a base delay of 1000 ms, whichever of the two arguments is omitted.
  Awaiting \<^verbatim>\<open>withTimeout\<close> with the default timeout comes to what \<open>outcome\<close> says, and
  every attempt of every run of \<^verbatim>\<open>fetchWithRetry\<close> is judged that way: a run of one
  attempt is the call's promise awaited under \<^verbatim>\<open>withTimeout\<close> with the default
  timeout; every run makes \<open>k\<close> attempts of which all but the last failed by that
  measure, and returns the outcome of the last. So an attempt whose promise has not
  settled after ten seconds counts as failed: when no attempt settles in time, the run
  makes all its attempts, each lasting ten seconds, and rejects with the timeout error.
\<close>

theorem attempts_use_default_timeout:
  assumes n: "n = (case maxRetries of None \<Rightarrow> 3 | Some m \<Rightarrow> m)"
    and d: "d = (case delay of None \<Rightarrow> 1000 | Some x \<Rightarrow> x)"
  shows "SUPABASE_TIMEOUT = 10000
   \<and> await_withTimeout p None w = await_withTimeout p (Some 10000) w
   \<and> map_option fst (await_withTimeout p None w) = Some (outcome (Returns p))
   \<and> fetchWithRetry fetchFn maxRetries delay w = fetchWithRetry fetchFn (Some n) (Some d) w
   \<and> (fetchFn (calls w) = Returns p \<longrightarrow>
        fetchWithRetry fetchFn (Some 1) delay w
          = await_withTimeout p None (snd (invoke fetchFn w)))
   \<and> (1 \<le> n \<longrightarrow>
        (\<exists>r w' k. fetchWithRetry fetchFn maxRetries delay w = Some (r, w')
           \<and> 1 \<le> k \<and> int k \<le> n
           \<and> calls w' = calls w + k
           \<and> (\<forall>j<k - 1. isl (outcome (fetchFn (calls w + j))))
           \<and> r = outcome (fetchFn (calls w + k - 1))
           \<and> (isl r \<longrightarrow> int k = n)))
   \<and> (1 \<le> n \<and> waits_in_range n d
        \<and> (\<forall>j<nat n. outlasts_timeout (fetchFn (calls w + j))) \<longrightarrow>
        (\<exists>w'. fetchWithRetry fetchFn maxRetries delay w
                 = Some (Inl (ErrorObj ''Request timed out''), w')
             \<and> calls w' = calls w + nat n
             \<and> starts w' = starts w @ start_times fetchFn d 0 (calls w) (now w) (nat n)
             \<and> now w' = last (starts w') + 10000))"
proof (intro conjI impI)
  have run: "fetchWithRetry fetchFn maxRetries delay w
               = fetchWithRetry_loop fetchFn n d 0 Undefined w"
    by (simp add: fetchWithRetry_def n d)
  show "SUPABASE_TIMEOUT = 10000" by (simp add: SUPABASE_TIMEOUT_def)
  show "await_withTimeout p None w = await_withTimeout p (Some 10000) w"
    by (simp add: await_withTimeout_def withTimeout_def SUPABASE_TIMEOUT_def)
  show "map_option fst (await_withTimeout p None w) = Some (outcome (Returns p))"
    by (rule await_withTimeout_outcome)
  show "fetchWithRetry fetchFn maxRetries delay w = fetchWithRetry fetchFn (Some n) (Some d) w"
    by (simp add: fetchWithRetry_def n d)
  show "fetchWithRetry fetchFn (Some 1) delay w
          = await_withTimeout p None (snd (invoke fetchFn w))"
    if "fetchFn (calls w) = Returns p"
    using that by (simp add: single_attempt attempt_Returns)
  show "\<exists>r w' k. fetchWithRetry fetchFn maxRetries delay w = Some (r, w')
           \<and> 1 \<le> k \<and> int k \<le> n
           \<and> calls w' = calls w + k
           \<and> (\<forall>j<k - 1. isl (outcome (fetchFn (calls w + j))))
           \<and> r = outcome (fetchFn (calls w + k - 1))
           \<and> (isl r \<longrightarrow> int k = n)"
    if n1: "1 \<le> n"
  proof -
    have m: "nat n = nat (n - 0)" "0 < nat n" using n1 by simp_all
    from loop_run [OF m, of fetchFn d Undefined w]
    obtain r w' k where
      "fetchWithRetry_loop fetchFn n d 0 Undefined w = Some (r, w')"
      and k: "1 \<le> k" "k \<le> nat n"
      and "calls w' = calls w + k"
      and "\<forall>j<k - 1. isl (outcome (fetchFn (calls w + j)))"
      and "r = outcome (fetchFn (calls w + k - 1))"
      and last: "isl r \<longrightarrow> k = nat n"
      by blast
    moreover have "int k \<le> n" using k by linarith
    moreover have "isl r \<longrightarrow> int k = n" using last n1 by auto
    ultimately show ?thesis unfolding run using k(1) by blast
  qed
  show "\<exists>w'. fetchWithRetry fetchFn maxRetries delay w
                 = Some (Inl (ErrorObj ''Request timed out''), w')
             \<and> calls w' = calls w + nat n
             \<and> starts w' = starts w @ start_times fetchFn d 0 (calls w) (now w) (nat n)
             \<and> now w' = last (starts w') + 10000"
    if h: "1 \<le> n \<and> waits_in_range n d
           \<and> (\<forall>j<nat n. outlasts_timeout (fetchFn (calls w + j)))"
  proof -
    have m: "nat n = nat (n - 0)" "0 < nat n" using h by simp_all
    have slow: "outcome (fetchFn (calls w + j)) = Inl (ErrorObj ''Request timed out'')
                \<and> duration (fetchFn (calls w + j)) = 10000" if "j < nat n" for j
      using h that outlasts_timeout_outcome by blast
    then have fl: "\<forall>j<nat n. isl (outcome (fetchFn (calls w + j)))" by simp
    from run_all_fail [OF m fl, of d Undefined] waits_in_range_all [of n d] h
    obtain w' where
      r: "fetchWithRetry_loop fetchFn n d 0 Undefined w
            = Some (outcome (fetchFn (calls w + nat n - 1)), w')"
      and cw: "calls w' = calls w + nat n"
      and sw: "starts w' = starts w @ start_times fetchFn d 0 (calls w) (now w) (nat n)"
      and nw: "now w' = last (starts w') + duration (fetchFn (calls w' - 1))"
      by blast
    have e: "calls w + nat n - 1 = calls w + (nat n - 1)" "calls w' - 1 = calls w + (nat n - 1)"
      using m(2) cw by linarith+
    have "nat n - 1 < nat n" using m(2) by linarith
    from slow [OF this] show ?thesis
      unfolding run using r cw sw nw e by simp
  qed
qed

text \<open>
  C7 at a concrete input: an operation whose promises never settle, all arguments
  omitted. The attempts begin at 0, 11000 and 23000 ms, and the run rejects at 33000 ms.
\<close>

theorem attempts_use_default_timeout_witness:
  "fetchWithRetry (\<lambda>n. Returns Pending :: (nat, bool) behaviour) None None idle
     = fetchWithRetry (\<lambda>n. Returns Pending) (Some 3) (Some 1000) idle
   \<and> fetchWithRetry (\<lambda>n. Returns Pending :: (nat, bool) behaviour) (Some 1) None idle
     = await_withTimeout Pending None
         (snd (invoke (\<lambda>n. Returns Pending :: (nat, bool) behaviour) idle))
   \<and> (\<exists>w'. fetchWithRetry (\<lambda>n. Returns Pending :: (nat, bool) behaviour) None None idle
               = Some (Inl (ErrorObj ''Request timed out''), w')
            \<and> calls w' = 3
            \<and> starts w' = [0, 11000, 23000]
            \<and> now w' = 33000)"
proof -
  let ?f = "\<lambda>n. Returns Pending :: (nat, bool) behaviour"
  have n: "(3::int) = (case None of None \<Rightarrow> 3 | Some m \<Rightarrow> m)"
    and d: "(1000::int) = (case None of None \<Rightarrow> 1000 | Some x \<Rightarrow> x)"
    by simp_all
  note t = attempts_use_default_timeout
             [OF n d, where p = "Pending :: (nat, bool) promise" and w = idle and fetchFn = ?f]
  have h: "(1::int) \<le> 3 \<and> waits_in_range 3 1000
           \<and> (\<forall>j<nat 3. outlasts_timeout (?f (calls idle + j)))"
    by (simp add: waits_in_range_def)
  have p: "?f (calls idle) = Returns Pending" by simp
  from t have c1: "fetchWithRetry ?f None None idle
                     = fetchWithRetry ?f (Some 3) (Some 1000) idle"
    by blast
  from t p have c2: "fetchWithRetry ?f (Some 1) None idle
                       = await_withTimeout Pending None (snd (invoke ?f idle))"
    by blast
  from t h obtain w' where
    run: "fetchWithRetry ?f None None idle = Some (Inl (ErrorObj ''Request timed out''), w')"
    and cw: "calls w' = calls idle + nat 3"
    and sw: "starts w' = starts idle @ start_times ?f 1000 0 (calls idle) (now idle) (nat 3)"
    and nw: "now w' = last (starts w') + 10000"
    by blast
  have st: "start_times ?f 1000 0 0 0 3 = [0, 11000, 23000]"
    by (simp add: numeral_3_eq_3)
  have "calls w' = 3" using cw by (simp add: idle_def)
  moreover have s3: "starts w' = [0, 11000, 23000]" using sw st by (simp add: idle_def)
  moreover have "now w' = 33000" using nw s3 by simp
  ultimately show ?thesis using c1 c2 run by blast
qed

text \<open>
  C8, as amended. Let the timeout be a whole number of milliseconds from 1 to
  \<open>2\<^sup>3\<^sup>1 - 1\<close>, and \<open>D\<close> the deadline of the timer that \<^verbatim>\<open>withTimeout\<close> arms. When
  the caller resumes, the timer is still armed exactly when the promise, not the timer,
  has decided the race: strictly before the deadline, or in the millisecond of the
  deadline ahead of the timer's task. Nothing clears it then: it is armed at every later
  moment before \<open>D\<close> and gone at every moment after \<open>D\<close>. Only when the timer decides the
  race is it released by the time the caller resumes.
\<close>

theorem withTimeout_timer_released_at_deadline:
  assumes ms: "ms = (case timeoutMs of None \<Rightarrow> SUPABASE_TIMEOUT | Some n \<Rightarrow> n)"
    and rg: "in_timer_range ms"
    and run: "await_withTimeout p timeoutMs w = Some (r, w')"
    and D: "D = now w + nat ms"
  shows "now w' \<le> D
       \<and> ((D \<in> set (timers w')) = settles_by (nat ms) p)
       \<and> (\<not> settles_by (nat ms) p \<longrightarrow>
            r = Inl (ErrorObj ''Request timed out'') \<and> now w' = D)
       \<and> (\<forall>q x w''. await q w' = Some (x, w'') \<longrightarrow>
            (now w'' < D \<longrightarrow> (D \<in> set (timers w'')) = settles_by (nat ms) p)
            \<and> (D < now w'' \<longrightarrow> D \<notin> set (timers w'')))"
proof -
  have first: "now w' \<le> D \<and> ((D \<in> set (timers w')) = settles_by (nat ms) p)
       \<and> (\<not> settles_by (nat ms) p \<longrightarrow>
            r = Inl (ErrorObj ''Request timed out'') \<and> now w' = D)"
    using run unfolding D
    by (cases p)
       (auto simp: await_withTimeout_eq ms [symmetric] timer_delay_in_range [OF rg] Let_def
                   advance_def advance_ahead_def setTimeout_def split: if_splits)
  have later: "(now w'' < D \<longrightarrow> (D \<in> set (timers w'')) = (D \<in> set (timers w')))
               \<and> (D < now w'' \<longrightarrow> D \<notin> set (timers w''))"
    if "await q w' = Some (x, w'')" for q :: "('x, 'y) promise" and x w''
    using that by (cases q) (auto simp: advance_def advance_ahead_def)
  show ?thesis using first later by blast
qed

text \<open>
  The amended C8 at concrete inputs: a promise fulfilled after 5 ms under a timeout of
  ten seconds, which leaves the timer armed; and the two ties under a timeout of 5 ms,
  where the timer is still armed if the promise settles ahead of the timer's task and
  has fired if it does not.
\<close>

theorem withTimeout_timer_released_at_deadline_witness:
  "in_timer_range 10000
   \<and> await_withTimeout (SettlesAt 5 (Inr True) :: (nat, bool) promise) (Some 10000) idle
       = Some (Inr True, idle\<lparr>now := 5, timers := [10000]\<rparr>)
   \<and> 10000 \<in> set (timers (idle\<lparr>now := 5, timers := [10000]\<rparr>))
   \<and> settles_by 10000 (SettlesAt 5 (Inr True) :: (nat, bool) promise)
   \<and> await_withTimeout (SettlesAt 5 (Inr True) :: (nat, bool) promise) (Some 5) idle
       = Some (Inr True, idle\<lparr>now := 5, timers := [5]\<rparr>)
   \<and> await_withTimeout (SettlesAfter 5 (Inr True) :: (nat, bool) promise) (Some 5) idle
       = Some (Inl (ErrorObj ''Request timed out''), idle\<lparr>now := 5, timers := []\<rparr>)"
proof -
  have rg: "in_timer_range 10000" by (simp add: in_timer_range_def)
  have run: "await_withTimeout (SettlesAt 5 (Inr True) :: (nat, bool) promise) (Some 10000) idle
               = Some (Inr True, idle\<lparr>now := 5, timers := [10000]\<rparr>)"
    by (simp add: await_withTimeout_eq idle_def advance_ahead_def setTimeout_def
                  timer_delay_def in_timer_range_def)
  have tie: "await_withTimeout (SettlesAt 5 (Inr True) :: (nat, bool) promise) (Some 5) idle
       = Some (Inr True, idle\<lparr>now := 5, timers := [5]\<rparr>)"
    "await_withTimeout (SettlesAfter 5 (Inr True) :: (nat, bool) promise) (Some 5) idle
       = Some (Inl (ErrorObj ''Request timed out''), idle\<lparr>now := 5, timers := []\<rparr>)"
    by (simp_all add: await_withTimeout_eq idle_def advance_ahead_def advance_def setTimeout_def
                  timer_delay_def in_timer_range_def)
  from withTimeout_timer_released_at_deadline [OF _ rg run, of 10000] rg run tie
  show ?thesis by (simp add: idle_def)
qed

text \<open>
  C8 as stated fails: when the promise is fulfilled after 5 ms, the caller resumes on an
  event loop that still holds the timer due at 10000 ms.
\<close>

theorem withTimeout_timer_outlives_race_counterexample:
  "await_withTimeout (SettlesAt 5 (Inr True) :: (nat, bool) promise) (Some 10000) idle
     = Some (Inr True, idle\<lparr>now := 5, timers := [10000]\<rparr>)"
  by (simp add: await_withTimeout_eq idle_def advance_ahead_def setTimeout_def
                timer_delay_def in_timer_range_def)

section \<open>The claim about createNovel\<close>

lemma insert_stage:
  assumes "absorbable s"
  shows "\<exists>res. fst (case s of
                      Hangs \<Rightarrow> (NeverSettles, [])
                    | Rejects x \<Rightarrow> catch_block x
                    | Resolves (Some insertError) \<Rightarrow> catch_block (Thrown (Some insertError))
                    | Resolves None \<Rightarrow>
                        (ResolvesWith \<lparr>success = True, error = None\<rparr>,
                         [ToastSuccess ''Novel created successfully!''])) = ResolvesWith res
           \<and> (success res \<longrightarrow> error res = None)
           \<and> (\<not> success res \<longrightarrow> fails_with s (error res))"
  using assms by (cases s rule: absorbable.cases) (auto split: option.splits)

text \<open>
  C9, as amended. When every awaited call of the object store and of the record store
  settles, and none of them rejects with \<^verbatim>\<open>null\<close> or \<^verbatim>\<open>undefined\<close>, \<^verbatim>\<open>createNovel\<close>
  does not reject: it resolves with \<^verbatim>\<open>success = true\<close> and no error, or with
  \<^verbatim>\<open>success = false\<close> and, as \<^verbatim>\<open>error\<close>, the \<^verbatim>\<open>message\<close> property of the failure
  of the upload or of the insert (nothing, when what was thrown has no message).
\<close>

theorem createNovel_absorbs_failures:
  assumes up: "\<forall>fileName f. absorbable (upload b fileName f)"
    and ins: "\<forall>row. absorbable (insert_single b row)"
  shows "\<exists>res. fst (createNovel b fd coverImage userId) = ResolvesWith res
           \<and> (success res \<longrightarrow> error res = None)
           \<and> (\<not> success res \<longrightarrow>
                (\<exists>fileName f. coverImage = Some f
                    \<and> fails_with (upload b fileName f) (error res))
              \<or> (\<exists>row. formData row = fd \<and> upload_by row = userId
                    \<and> fails_with (insert_single b row) (error res)))"
proof -
  have stage: "\<exists>res. fst (case insert_single b row of
                      Hangs \<Rightarrow> (NeverSettles, [])
                    | Rejects x \<Rightarrow> catch_block x
                    | Resolves (Some insertError) \<Rightarrow> catch_block (Thrown (Some insertError))
                    | Resolves None \<Rightarrow>
                        (ResolvesWith \<lparr>success = True, error = None\<rparr>,
                         [ToastSuccess ''Novel created successfully!''])) = ResolvesWith res
           \<and> (success res \<longrightarrow> error res = None)
           \<and> (\<not> success res \<longrightarrow>
                (\<exists>fileName f. coverImage = Some f
                    \<and> fails_with (upload b fileName f) (error res))
              \<or> (\<exists>row. formData row = fd \<and> upload_by row = userId
                    \<and> fails_with (insert_single b row) (error res)))"
    if "formData row = fd" "upload_by row = userId" for row
    using insert_stage [of "insert_single b row"] ins that by blast
  show ?thesis
  proof (cases coverImage)
    case None
    then show ?thesis
      using stage [of "\<lparr>formData = fd, novel_coverpage = None, upload_by = userId,
                        views = 0, created_at = toISOString b\<rparr>"]
      by (simp add: createNovel_def)
  next
    case (Some f)
    define fileName where "fileName = uuidv4 b @ ''.'' @ last (js_split CHR ''.'' (name f))"
    have a: "absorbable (upload b fileName f)" using up by blast
    show ?thesis
    proof (cases "upload b fileName f" rule: absorbable.cases)
      case 1
      then show ?thesis using a by simp
    next
      case 2
      then show ?thesis using a by simp
    next
      case (3 m)
      then have "createNovel b fd coverImage userId = catch_block (Thrown m)"
        using Some by (simp add: createNovel_def uploadNovelCover_def fileName_def)
      moreover have "fails_with (upload b fileName f) m"
        using 3 by simp
      ultimately show ?thesis using Some by auto
    next
      case (4 x)
      show ?thesis
      proof (cases x)
        case None
        then show ?thesis
          using 4 Some
            stage [of "\<lparr>formData = fd, novel_coverpage = Some (getPublicUrl b fileName),
                        upload_by = userId, views = 0, created_at = toISOString b\<rparr>"]
          by (simp add: createNovel_def uploadNovelCover_def fileName_def)
      next
        case (Some uploadError)
        then have "createNovel b fd coverImage userId = catch_block (Thrown (Some uploadError))"
          using 4 \<open>coverImage = Some f\<close>
          by (simp add: createNovel_def uploadNovelCover_def fileName_def)
        moreover have "fails_with (upload b fileName f) (Some uploadError)"
          using 4 Some by simp
        ultimately show ?thesis using \<open>coverImage = Some f\<close> by auto
      qed
    qed
  qed
qed

text \<open>
  The amended C9 at a concrete input: the cover is uploaded and the insert is answered
  with an error object.
\<close>

theorem createNovel_absorbs_failures_witness:
  "createNovel (stub_backend (Resolves None) (Resolves (Some ''duplicate key'')))
      () (Some \<lparr>name = ''cover.png'', content = ''png''\<rparr>) ''u1''
     = (ResolvesWith \<lparr>success = False, error = Some ''duplicate key''\<rparr>,
        [ToastError ''duplicate key''])
   \<and> (\<exists>res. fst (createNovel (stub_backend (Resolves None) (Resolves (Some ''duplicate key'')))
                   () (Some \<lparr>name = ''cover.png'', content = ''png''\<rparr>) ''u1'')
               = ResolvesWith res
            \<and> error res = Some ''duplicate key'')"
proof -
  let ?b = "stub_backend (Resolves None) (Resolves (Some ''duplicate key''))"
  let ?c = "Some \<lparr>name = ''cover.png'', content = ''png''\<rparr>"
  have h: "\<forall>fileName f. absorbable (upload ?b fileName f)"
          "\<forall>row. absorbable (insert_single ?b row)"
    by (simp_all add: stub_backend_def)
  have e: "createNovel ?b () ?c ''u1''
     = (ResolvesWith \<lparr>success = False, error = Some ''duplicate key''\<rparr>,
        [ToastError ''duplicate key''])"
    by (simp add: createNovel_def uploadNovelCover_def stub_backend_def)
  from createNovel_absorbs_failures [OF h, of "()" ?c "''u1''"] e
  show ?thesis by auto
qed

text \<open>
  C9 as stated fails in three ways. A record store that rejects with \<^verbatim>\<open>undefined\<close> makes
  \<^verbatim>\<open>createNovel\<close> reject, with the TypeError raised in its \<^verbatim>\<open>catch\<close> block; one that
  rejects with a value without a message makes it resolve with \<^verbatim>\<open>success = false\<close> and
  no error message; one that never answers makes it never return.
\<close>

theorem createNovel_rejects_counterexample:
  "createNovel (stub_backend (Resolves None) (Rejects Nullish)) () None ''u1''
     = (RejectsWithTypeError, [])
   \<and> createNovel (stub_backend (Resolves None) (Rejects (Thrown None))) () None ''u1''
     = (ResolvesWith \<lparr>success = False, error = None\<rparr>, [ToastError ''Failed to create novel''])
   \<and> createNovel (stub_backend (Resolves None) Hangs) () None ''u1''
     = (NeverSettles, [])"
  by (simp add: createNovel_def stub_backend_def)

end
